theory Spec2Isabelle
  imports Main "HOL-Library.Word" "HOL-Library.Char_ord" "HOL-Library.List_Lexorder"
begin

section \<open>Text formatting: the fragment of Go's fmt and strconv the keys use\<close>

text \<open>
  A Go string and a byte slice are sequences of bytes. The keys of the index are built with
  \<^verbatim>\<open>fmt.Sprintf\<close> from three format strings that use the verbs \<^verbatim>\<open>%s\<close>, \<^verbatim>\<open>%x\<close> and \<^verbatim>\<open>%d\<close>, and
  the remover formats its worker number with \<^verbatim>\<open>strconv.FormatInt(i, 16)\<close>.
\<close>

type_synonym byte = "8 word"
type_synonym bytes = "byte list"

definition digitChars :: string where
  "digitChars = ''0123456789abcdefghijklmnopqrstuvwxyz''"

text \<open>
  \<^verbatim>\<open>strconv\<close>'s digit loop for a non-negative number in base \<open>b\<close>. The code uses the
  bases 10 and 16; \<^verbatim>\<open>strconv\<close> refuses a base below 2 or above 36, which the model does not
  follow. Go's \<^verbatim>\<open>int\<close> has 64 bits; the numbers formatted here are never computed with, so
  they are modelled as integers, each with its decimal text.
\<close>

function formatBits :: "nat \<Rightarrow> nat \<Rightarrow> string" where
  "formatBits b n =
     (if b < 2 \<or> n < b then [digitChars ! n]
      else formatBits b (n div b) @ [digitChars ! (n mod b)])"
  by pat_completeness auto
termination
  by (relation "measure snd") auto

declare formatBits.simps [simp del]

text \<open>\<^verbatim>\<open>strconv.FormatInt\<close>: a minus sign, then the digits of the magnitude.\<close>

definition FormatInt :: "int \<Rightarrow> nat \<Rightarrow> string" where
  "FormatInt i b = (if i < 0 then CHR ''-'' # formatBits b (nat (- i)) else formatBits b (nat i))"

text \<open>The verb \<^verbatim>\<open>%x\<close> writes every byte as two lower-case hexadecimal digits.\<close>

definition hexByte :: "nat \<Rightarrow> string" where
  "hexByte n = [digitChars ! ((n div 16) mod 16), digitChars ! (n mod 16)]"

definition hexBytes :: "bytes \<Rightarrow> string" where
  "hexBytes bs = concat (map (\<lambda>b. hexByte (unat b)) bs)"

definition hexString :: "string \<Rightarrow> string" where
  "hexString s = concat (map (\<lambda>c. hexByte (of_char c)) s)"

text \<open>
  The operands the code passes to \<^verbatim>\<open>Sprintf\<close>: a string, a byte slice, an \<^verbatim>\<open>int\<close>, and a
  \<^verbatim>\<open>plumbing.Hash\<close>. The last is go-git's \<^verbatim>\<open>type Hash [20]byte\<close> with the method
  \<^verbatim>\<open>String() string\<close> that returns \<^verbatim>\<open>hex.EncodeToString(h[:])\<close>. For the verbs that are valid
  for strings (\<^verbatim>\<open>%s %q %v %x %X\<close>) package fmt formats an operand that has a \<^verbatim>\<open>String\<close>
  method by calling the method and formatting the returned string; a byte slice has no
  method and is formatted byte by byte.
\<close>

datatype fmtArg = AString string | ABytes bytes | AInt int | AHash bytes

definition HashString :: "bytes \<Rightarrow> string" where
  "HashString h = hexBytes h"

text \<open>
  The three format strings of the package pair \<^verbatim>\<open>%s\<close> with strings, \<^verbatim>\<open>%x\<close> with byte
  slices and with a \<^verbatim>\<open>plumbing.Hash\<close>, and \<^verbatim>\<open>%d\<close> with integers. For any other pair of
  verb and operand, and for a verb without operand, the model writes a marker in place of
  fmt's error text; operands left over are dropped. The code reaches none of these.
\<close>

fun fmtVerb :: "char \<Rightarrow> fmtArg \<Rightarrow> string" where
  "fmtVerb v (AString s) =
     (if v = CHR ''s'' then s else if v = CHR ''x'' then hexString s else ''%!'' @ [v])"
| "fmtVerb v (ABytes bs) =
     (if v = CHR ''s'' then map (\<lambda>b. char_of (unat b)) bs
      else if v = CHR ''x'' then hexBytes bs else ''%!'' @ [v])"
| "fmtVerb v (AInt i) =
     (if v = CHR ''d'' then FormatInt i 10
      else if v = CHR ''x'' then FormatInt i 16 else ''%!'' @ [v])"
| "fmtVerb v (AHash h) =
     (if v = CHR ''s'' then HashString h
      else if v = CHR ''x'' then hexString (HashString h) else ''%!'' @ [v])"

fun Sprintf :: "string \<Rightarrow> fmtArg list \<Rightarrow> string" where
  "Sprintf [] args = []"
| "Sprintf [c] args = [c]"
| "Sprintf (c # v # rest) args =
     (if c = CHR ''%'' then
        (if v = CHR ''%'' then CHR ''%'' # Sprintf rest args
         else
           (case args of
              [] \<Rightarrow> ''%!'' @ [v] @ ''(MISSING)'' @ Sprintf rest []
            | a # args' \<Rightarrow> fmtVerb v a @ Sprintf rest args'))
      else c # Sprintf (v # rest) args)"

section \<open>The storage package (src/unnamed/part\_000, lines 157 to 320)\<close>

definition docKind :: string where "docKind = ''RepoIndex''"
definition resultKind :: string where "resultKind = ''RepoIndexBucket''"
definition treeKind :: string where "treeKind = ''RepoIndexResultTree''"
definition docKeyFmt :: string where "docKeyFmt = ''%s-%s-%x''"
definition resultKeyFmt :: string where "resultKeyFmt = ''%x-%s''"
definition treeKeyFmt :: string where "treeKeyFmt = ''%x-%s-%d-%d''"

text \<open>
  The types of the packages \<^verbatim>\<open>preparation\<close> and \<^verbatim>\<open>processing\<close> are declared outside the
  files at hand; the records below hold the fields that the storage package reads.
  Slices of pointers are modelled as lists of values: a nil element is not an input.
\<close>

record Result =
  Name :: string
  BaseCPE :: string
  Version :: string
  Commit :: bytes
  CommitTag :: string
  When :: int
  Type :: string
  Addr :: string
  FileExts :: "string list"

record FileResult =
  Path :: string
  Hash :: bytes

record TreeNode =
  NodeHash :: bytes
  Height :: int
  FilesContained :: int

text \<open>The two entity structs, with the names of their datastore properties.\<close>

record document =
  name :: string
  base_cpe :: string
  version :: string
  commit :: bytes
  tag :: string
  when_time :: int
  repo_type :: string
  repo_addr :: string
  file_exts :: "string list"
  file_hash_type :: string

record result =
  bucket_hash :: bytes
  bucket_results_path :: "string list"
  bucket_results_hash :: "bytes list"

datatype panic = IndexOutOfRange

section \<open>The datastore, as the storage package uses it\<close>

text \<open>
  A key has a kind, a name and an optional parent key (\<^verbatim>\<open>datastore.NameKey\<close>). The store
  maps keys to entities. The client library is not part of the repository: its calls are
  modelled by their contract, and what the library or the service may answer beyond the
  contents of the store (a rejected entity, a failed call, a failed commit) is a parameter,
  the record \<open>client\<close>.
\<close>

datatype dskey = NameKey (keyKind: string) (keyName: string) (keyParent: "dskey option")

datatype entity = EDocument document | EResult result | ETreeNode TreeNode

datatype error = ErrNoSuchEntity | ErrFieldMismatch | ErrOther nat

type_synonym datastore = "dskey \<rightharpoonup> entity"

type_synonym mutations = "(dskey \<times> entity) list"

record client =
  putErr :: "dskey \<Rightarrow> entity \<Rightarrow> error option"
  putMultiErr :: "dskey list \<Rightarrow> entity list \<Rightarrow> error option"
  commitErr :: "datastore \<Rightarrow> mutations \<Rightarrow> error option"
  getErr :: "dskey \<Rightarrow> error option"

text \<open>
  \<^verbatim>\<open>tx.Put\<close> and \<^verbatim>\<open>tx.PutMulti\<close> check their arguments and append the writes to the
  transaction's buffer; nothing reaches the store before the commit.
\<close>

definition txPut :: "client \<Rightarrow> dskey \<Rightarrow> entity \<Rightarrow> mutations \<Rightarrow> error + mutations" where
  "txPut c k e tx = (case putErr c k e of Some err \<Rightarrow> Inl err | None \<Rightarrow> Inr (tx @ [(k, e)]))"

definition txPutMulti :: "client \<Rightarrow> dskey list \<Rightarrow> entity list \<Rightarrow> mutations \<Rightarrow> error + mutations" where
  "txPutMulti c ks es tx =
     (case putMultiErr c ks es of Some err \<Rightarrow> Inl err | None \<Rightarrow> Inr (tx @ zip ks es))"

definition applyMutations :: "datastore \<Rightarrow> mutations \<Rightarrow> datastore" where
  "applyMutations ds ms = foldl (\<lambda>m (k, e). m(k \<mapsto> e)) ds ms"

text \<open>
  \<^verbatim>\<open>RunInTransaction\<close> runs the function on a fresh transaction. An error of the function
  rolls the transaction back and is returned; otherwise the buffered writes are committed
  together, or the commit fails and none of them is applied. The library runs the function
  again after a conflicting commit; the function of \<open>Store\<close> buffers the same writes every
  time, so \<open>commitErr\<close> stands for the outcome of the last attempt.
\<close>

definition RunInTransaction ::
  "client \<Rightarrow> (mutations \<Rightarrow> error + mutations) \<Rightarrow> datastore \<Rightarrow> error option \<times> datastore" where
  "RunInTransaction c f ds =
     (case f [] of
        Inl err \<Rightarrow> (Some err, ds)
      | Inr ms \<Rightarrow>
          (case commitErr c ds ms of
             Some err \<Rightarrow> (Some err, ds)
           | None \<Rightarrow> (None, applyMutations ds ms)))"

text \<open>
  \<^verbatim>\<open>Get\<close> into a \<^verbatim>\<open>*document\<close>: the call may fail, the key may be absent, and an entity
  that is not a document does not load into the struct.
\<close>

definition dsGet :: "client \<Rightarrow> datastore \<Rightarrow> dskey \<Rightarrow> error + document" where
  "dsGet c ds k =
     (case getErr c k of
        Some err \<Rightarrow> Inl err
      | None \<Rightarrow>
          (case ds k of
             None \<Rightarrow> Inl ErrNoSuchEntity
           | Some (EDocument d) \<Rightarrow> Inr d
           | Some _ \<Rightarrow> Inl ErrFieldMismatch))"

subsection \<open>newDoc and newResult\<close>

fun newResultLoop ::
  "FileResult list \<Rightarrow> string list \<times> bytes list \<Rightarrow> string list \<times> bytes list" where
  "newResultLoop [] acc = acc"
| "newResultLoop (r # rs) (paths, hashes) = newResultLoop rs (paths @ [Path r], hashes @ [Hash r])"

definition newResult :: "FileResult list \<Rightarrow> bytes \<Rightarrow> result" where
  "newResult results bucketHash =
     (case newResultLoop results ([], []) of
        (paths, hashes) \<Rightarrow>
          \<lparr>bucket_hash = bucketHash, bucket_results_path = paths, bucket_results_hash = hashes\<rparr>)"

text \<open>
  The loop of \<open>newDoc\<close> over \<open>bucketResults\<close> with its index \<open>i\<close>. The guard tests the
  length of the whole of \<open>bucketResults\<close>; \<open>baseTreeLayer[i]\<close> panics out of range.
\<close>

fun newDocLoop ::
  "FileResult list list \<Rightarrow> nat \<Rightarrow> FileResult list list \<Rightarrow> TreeNode list \<Rightarrow> result list
     \<Rightarrow> panic + result list" where
  "newDocLoop bucketResults i [] baseTreeLayer acc = Inr acc"
| "newDocLoop bucketResults i (v # vs) baseTreeLayer acc =
     (if length bucketResults = 0 then newDocLoop bucketResults (Suc i) vs baseTreeLayer acc
      else if i < length baseTreeLayer then
        newDocLoop bucketResults (Suc i) vs baseTreeLayer
          (acc @ [newResult v (NodeHash (baseTreeLayer ! i))])
      else Inl IndexOutOfRange)"

definition newDoc ::
  "Result \<Rightarrow> string \<Rightarrow> FileResult list list \<Rightarrow> TreeNode list \<Rightarrow> panic + document \<times> result list" where
  "newDoc repoInfo hashType bucketResults baseTreeLayer =
     (let doc = \<lparr>name = Name repoInfo, base_cpe = BaseCPE repoInfo, version = Version repoInfo,
                 commit = Commit repoInfo, tag = CommitTag repoInfo, when_time = When repoInfo,
                 repo_type = Type repoInfo, repo_addr = Addr repoInfo,
                 file_exts = FileExts repoInfo, file_hash_type = hashType\<rparr>
      in case newDocLoop bucketResults 0 bucketResults baseTreeLayer [] of
           Inl p \<Rightarrow> Inl p
         | Inr res \<Rightarrow> Inr (doc, res))"

subsection \<open>Store.Exists and Store.Store\<close>

text \<open>
  The \<^verbatim>\<open>Store\<close> struct holds the client and the session's cache, a \<^verbatim>\<open>sync.Map\<close> from key
  strings to \<^verbatim>\<open>true\<close>. The contents of the datastore are a separate argument.
\<close>

record Store =
  cache :: "string \<rightharpoonup> bool"

text \<open>\<open>Exists\<close> formats its key from the \<^verbatim>\<open>plumbing.Hash\<close> value itself.\<close>

definition Exists ::
  "client \<Rightarrow> Store \<Rightarrow> datastore \<Rightarrow> string \<Rightarrow> string \<Rightarrow> bytes \<Rightarrow> Store \<times> bool \<times> error option" where
  "Exists c s ds addr hashType hash =
     (case cache s (Sprintf docKeyFmt [AString addr, AString hashType, AHash hash]) of
        Some ok \<Rightarrow> (s, True, None)
      | None \<Rightarrow>
          (let key = NameKey docKind (Sprintf docKeyFmt [AString addr, AString hashType, AHash hash]) None
           in case dsGet c ds key of
                Inl err \<Rightarrow>
                  (if err = ErrNoSuchEntity then (s, False, None) else (s, False, Some err))
              | Inr tmp \<Rightarrow>
                  (s\<lparr>cache := (cache s)(Sprintf docKeyFmt [AString addr, AString hashType, AHash hash] \<mapsto> True)\<rparr>,
                   True, None)))"

text \<open>The first loop of the transaction: one \<^verbatim>\<open>tx.Put\<close> for every result.\<close>

fun putResults :: "client \<Rightarrow> dskey \<Rightarrow> string \<Rightarrow> result list \<Rightarrow> mutations \<Rightarrow> error + mutations" where
  "putResults c docKey hashType [] tx = Inr tx"
| "putResults c docKey hashType (r # rs) tx =
     (let resultKey =
            NameKey resultKind (Sprintf resultKeyFmt [ABytes (bucket_hash r), AString hashType]) (Some docKey)
      in case txPut c resultKey (EResult r) tx of
           Inl err \<Rightarrow> Inl err
         | Inr tx' \<Rightarrow> putResults c docKey hashType rs tx')"

text \<open>The inner loop over the nodes of a layer, which fills the two slices.\<close>

fun collectLayer ::
  "dskey \<Rightarrow> string \<Rightarrow> TreeNode list \<Rightarrow> dskey list \<times> TreeNode list \<Rightarrow> dskey list \<times> TreeNode list" where
  "collectLayer docKey hashType [] acc = acc"
| "collectLayer docKey hashType (node # layer) (putMultiKeys, putMultiNodes) =
     (if FilesContained node = 0 then collectLayer docKey hashType layer (putMultiKeys, putMultiNodes)
      else
        (let treeKey =
               NameKey treeKind
                 (Sprintf treeKeyFmt
                    [ABytes (NodeHash node), AString hashType, AInt (FilesContained node),
                     AInt (Height node)])
                 (Some docKey)
         in collectLayer docKey hashType layer (putMultiKeys @ [treeKey], putMultiNodes @ [node])))"

text \<open>The outer loop: one \<^verbatim>\<open>tx.PutMulti\<close> for every layer.\<close>

fun putLayers :: "client \<Rightarrow> dskey \<Rightarrow> string \<Rightarrow> TreeNode list list \<Rightarrow> mutations \<Rightarrow> error + mutations" where
  "putLayers c docKey hashType [] tx = Inr tx"
| "putLayers c docKey hashType (layer # treeNodes) tx =
     (case collectLayer docKey hashType layer ([], []) of
        (putMultiKeys, putMultiNodes) \<Rightarrow>
          (case txPutMulti c putMultiKeys (map ETreeNode putMultiNodes) tx of
             Inl err \<Rightarrow> Inl err
           | Inr tx' \<Rightarrow> putLayers c docKey hashType treeNodes tx'))"

text \<open>The function that \<open>Store\<close> hands to \<^verbatim>\<open>RunInTransaction\<close>.\<close>

definition storeTx ::
  "client \<Rightarrow> dskey \<Rightarrow> string \<Rightarrow> document \<Rightarrow> result list \<Rightarrow> TreeNode list list \<Rightarrow> mutations
     \<Rightarrow> error + mutations" where
  "storeTx c docKey hashType doc results treeNodes tx =
     (case txPut c docKey (EDocument doc) tx of
        Inl err \<Rightarrow> Inl err
      | Inr tx1 \<Rightarrow>
          (case putResults c docKey hashType results tx1 of
             Inl err \<Rightarrow> Inl err
           | Inr tx2 \<Rightarrow> putLayers c docKey hashType treeNodes tx2))"

text \<open>
  \<open>Store\<close> formats the document key from the byte slice \<^verbatim>\<open>repoInfo.Commit[:]\<close>, indexes
  \<^verbatim>\<open>treeNodes[0]\<close> and builds the document before the transaction starts. A panic ends the
  call before anything is written.
\<close>

definition StoreStore ::
  "client \<Rightarrow> datastore \<Rightarrow> Result \<Rightarrow> string \<Rightarrow> FileResult list list \<Rightarrow> TreeNode list list
     \<Rightarrow> panic + error option \<times> datastore" where
  "StoreStore c ds repoInfo hashType bucketResults treeNodes =
     (let docKey =
            NameKey docKind
              (Sprintf docKeyFmt [AString (Addr repoInfo), AString hashType, ABytes (Commit repoInfo)])
              None
      in case treeNodes of
           [] \<Rightarrow> Inl IndexOutOfRange
         | baseTreeLayer # _ \<Rightarrow>
             (case newDoc repoInfo hashType bucketResults baseTreeLayer of
                Inl p \<Rightarrow> Inl p
              | Inr (doc, results) \<Rightarrow>
                  Inr (RunInTransaction c (storeTx c docKey hashType doc results treeNodes) ds)))"

section \<open>The bulk-removal tool (src/tools/datastore-remover/main.go)\<close>


record flags =
  kind :: string
  projectID :: string
  batchSize :: int
  waitTimeMS :: int







section \<open>The key scheme and the records of a call, in the words of the specification\<close>

text \<open>
  The definitions of this section do not come from the code: they say which keys and
  records the specification expects, as closed expressions, and the program is compared
  with them below. \<open>specOps\<close> lists the calls on the transaction, \<open>specRecords\<close> the
  records they write, \<open>chunks\<close> cuts a list into consecutive groups of a given size.
\<close>

definition specDocKey :: "string \<Rightarrow> string \<Rightarrow> bytes \<Rightarrow> dskey" where
  "specDocKey addr hashType commitBytes =
     NameKey ''RepoIndex'' (addr @ ''-'' @ hashType @ ''-'' @ hexBytes commitBytes) None"

definition specResultKey :: "dskey \<Rightarrow> string \<Rightarrow> result \<Rightarrow> dskey" where
  "specResultKey docKey hashType r =
     NameKey ''RepoIndexBucket'' (hexBytes (bucket_hash r) @ ''-'' @ hashType) (Some docKey)"

definition specTreeKey :: "dskey \<Rightarrow> string \<Rightarrow> TreeNode \<Rightarrow> dskey" where
  "specTreeKey docKey hashType n =
     NameKey ''RepoIndexResultTree''
       (hexBytes (NodeHash n) @ ''-'' @ hashType @ ''-'' @ FormatInt (FilesContained n) 10 @ ''-'' @
        FormatInt (Height n) 10)
       (Some docKey)"

definition specDocument :: "Result \<Rightarrow> string \<Rightarrow> document" where
  "specDocument repoInfo hashType =
     \<lparr>name = Name repoInfo, base_cpe = BaseCPE repoInfo, version = Version repoInfo,
      commit = Commit repoInfo, tag = CommitTag repoInfo, when_time = When repoInfo,
      repo_type = Type repoInfo, repo_addr = Addr repoInfo,
      file_exts = FileExts repoInfo, file_hash_type = hashType\<rparr>"

definition specResults :: "FileResult list list \<Rightarrow> TreeNode list \<Rightarrow> result list" where
  "specResults bucketResults baseTreeLayer =
     map (\<lambda>(v, n). \<lparr>bucket_hash = NodeHash n, bucket_results_path = map Path v,
                     bucket_results_hash = map Hash v\<rparr>)
       (zip bucketResults baseTreeLayer)"

datatype txOp = OpPut dskey entity | OpPutMulti "dskey list" "entity list"

fun opErr :: "client \<Rightarrow> txOp \<Rightarrow> error option" where
  "opErr c (OpPut k e) = putErr c k e"
| "opErr c (OpPutMulti ks es) = putMultiErr c ks es"

fun opWrites :: "txOp \<Rightarrow> mutations" where
  "opWrites (OpPut k e) = [(k, e)]"
| "opWrites (OpPutMulti ks es) = zip ks es"

definition layerOp :: "dskey \<Rightarrow> string \<Rightarrow> TreeNode list \<Rightarrow> txOp" where
  "layerOp docKey hashType layer =
     OpPutMulti (map (specTreeKey docKey hashType) (filter (\<lambda>n. FilesContained n \<noteq> 0) layer))
       (map ETreeNode (filter (\<lambda>n. FilesContained n \<noteq> 0) layer))"

definition specOps :: "dskey \<Rightarrow> string \<Rightarrow> document \<Rightarrow> result list \<Rightarrow> TreeNode list list \<Rightarrow> txOp list" where
  "specOps docKey hashType doc results treeNodes =
     OpPut docKey (EDocument doc) #
     map (\<lambda>r. OpPut (specResultKey docKey hashType r) (EResult r)) results @
     map (layerOp docKey hashType) treeNodes"

definition specRecords :: "dskey \<Rightarrow> string \<Rightarrow> document \<Rightarrow> result list \<Rightarrow> TreeNode list list \<Rightarrow> mutations" where
  "specRecords docKey hashType doc results treeNodes =
     (docKey, EDocument doc) #
     map (\<lambda>r. (specResultKey docKey hashType r, EResult r)) results @
     concat (map (\<lambda>layer. map (\<lambda>n. (specTreeKey docKey hashType n, ETreeNode n))
                            (filter (\<lambda>n. FilesContained n \<noteq> 0) layer)) treeNodes)"

fun runOps :: "client \<Rightarrow> txOp list \<Rightarrow> mutations \<Rightarrow> error + mutations" where
  "runOps c [] tx = Inr tx"
| "runOps c (op # ops) tx =
     (case opErr c op of Some err \<Rightarrow> Inl err | None \<Rightarrow> runOps c ops (tx @ opWrites op))"

definition specStoreOps :: "Result \<Rightarrow> string \<Rightarrow> FileResult list list \<Rightarrow> TreeNode list list \<Rightarrow> txOp list" where
  "specStoreOps repoInfo hashType bucketResults treeNodes =
     specOps (specDocKey (Addr repoInfo) hashType (Commit repoInfo)) hashType
       (specDocument repoInfo hashType) (specResults bucketResults (hd treeNodes)) treeNodes"

definition specStoreRecords :: "Result \<Rightarrow> string \<Rightarrow> FileResult list list \<Rightarrow> TreeNode list list \<Rightarrow> mutations" where
  "specStoreRecords repoInfo hashType bucketResults treeNodes =
     specRecords (specDocKey (Addr repoInfo) hashType (Commit repoInfo)) hashType
       (specDocument repoInfo hashType) (specResults bucketResults (hd treeNodes)) treeNodes"


section \<open>Example inputs\<close>

text \<open>
  A client whose calls all succeed, one whose \<^verbatim>\<open>PutMulti\<close> fails and one whose \<^verbatim>\<open>Get\<close>
  fails; a repository with a 20-byte commit hash; three tree nodes, of which \<open>exNodeB\<close>
  contains no file; the keys and the contents of the store that the calls below produce.
\<close>

definition okClient :: client where
  "okClient = \<lparr>putErr = (\<lambda>k e. None), putMultiErr = (\<lambda>ks es. None),
               commitErr = (\<lambda>ds ms. None), getErr = (\<lambda>k. None)\<rparr>"

definition putMultiFails :: client where
  "putMultiFails = \<lparr>putErr = (\<lambda>k e. None), putMultiErr = (\<lambda>ks es. Some (ErrOther 7)),
               commitErr = (\<lambda>ds ms. None), getErr = (\<lambda>k. None)\<rparr>"

definition exRepo :: Result where
  "exRepo = \<lparr>Name = ''osv'', BaseCPE = ''cpe'', Version = ''1.0'',
             Commit = [0xab, 0xcd, 0xef, 0x01, 0x23, 0x45, 0x67, 0x89, 0x0a, 0x0b,
                       0x0c, 0x0d, 0x0e, 0x0f, 0x10, 0x11, 0x12, 0x13, 0x14, 0x15],
             CommitTag = ''v1'', When = 0, Type = ''git'', Addr = ''repo'', FileExts = [''c'']\<rparr>"

definition exNodeA :: TreeNode where
  "exNodeA = \<lparr>NodeHash = [0x01], Height = 0, FilesContained = 2\<rparr>"

definition exNodeB :: TreeNode where
  "exNodeB = \<lparr>NodeHash = [0x02], Height = 0, FilesContained = 0\<rparr>"

definition exNodeC :: TreeNode where
  "exNodeC = \<lparr>NodeHash = [0x03], Height = 0, FilesContained = 1\<rparr>"

definition exFile :: FileResult where
  "exFile = \<lparr>Path = ''main.c'', Hash = [0x0a]\<rparr>"

definition exDocKey :: dskey where
  "exDocKey = NameKey ''RepoIndex'' ''repo-md5-abcdef01234567890a0b0c0d0e0f101112131415'' None"

definition exDoc :: document where
  "exDoc = \<lparr>name = ''osv'', base_cpe = ''cpe'', version = ''1.0'',
            commit = [0xab, 0xcd, 0xef, 0x01, 0x23, 0x45, 0x67, 0x89, 0x0a, 0x0b,
                      0x0c, 0x0d, 0x0e, 0x0f, 0x10, 0x11, 0x12, 0x13, 0x14, 0x15],
            tag = ''v1'', when_time = 0, repo_type = ''git'', repo_addr = ''repo'',
            file_exts = [''c''], file_hash_type = ''md5''\<rparr>"

definition exKeyA :: dskey where
  "exKeyA = NameKey ''RepoIndexResultTree'' ''01-md5-2-0'' (Some exDocKey)"

definition exKeyC :: dskey where
  "exKeyC = NameKey ''RepoIndexResultTree'' ''03-md5-1-0'' (Some exDocKey)"

definition exStore0 :: datastore where
  "exStore0 = [exDocKey \<mapsto> EDocument exDoc]"

definition exStore1 :: datastore where
  "exStore1 = [exDocKey \<mapsto> EDocument exDoc, exKeyA \<mapsto> ETreeNode exNodeA]"

definition exStore2 :: datastore where
  "exStore2 = [exDocKey \<mapsto> EDocument exDoc, exKeyA \<mapsto> ETreeNode exNodeA,
               exDocKey \<mapsto> EDocument exDoc, exKeyC \<mapsto> ETreeNode exNodeC]"

definition exEnts :: "(dskey \<times> string) list" where
  "exEnts = [(NameKey ''RepoIndex'' ''k1'' None, ''2f''), (NameKey ''RepoIndex'' ''k2'' None, ''0'')]"

definition exKeyR :: dskey where
  "exKeyR = NameKey ''RepoIndexBucket'' ''01-md5'' (Some exDocKey)"

definition exKeyB :: dskey where
  "exKeyB = NameKey ''RepoIndexResultTree'' ''02-md5-0-0'' (Some exDocKey)"

definition exResult :: result where
  "exResult = \<lparr>bucket_hash = [0x01], bucket_results_path = [''main.c''],
               bucket_results_hash = [[0x0a]]\<rparr>"

definition exStore3 :: datastore where
  "exStore3 = [exDocKey \<mapsto> EDocument exDoc, exKeyR \<mapsto> EResult exResult,
               exKeyA \<mapsto> ETreeNode exNodeA]"

definition exKeyR2 :: dskey where
  "exKeyR2 = NameKey ''RepoIndexBucket'' ''02-md5'' (Some exDocKey)"

definition exResult2 :: result where
  "exResult2 = \<lparr>bucket_hash = [0x02], bucket_results_path = [], bucket_results_hash = []\<rparr>"

definition exStore4 :: datastore where
  "exStore4 = [exDocKey \<mapsto> EDocument exDoc, exKeyR \<mapsto> EResult exResult,
               exKeyR2 \<mapsto> EResult exResult2, exKeyA \<mapsto> ETreeNode exNodeA]"

definition getFails :: client where
  "getFails = \<lparr>putErr = (\<lambda>k e. None), putMultiErr = (\<lambda>ks es. None),
               commitErr = (\<lambda>ds ms. None), getErr = (\<lambda>k. Some (ErrOther 3))\<rparr>"

definition exFlags :: flags where
  "exFlags = \<lparr>kind = ''RepoIndex'', projectID = ''p'', batchSize = 2, waitTimeMS = 500\<rparr>"

section \<open>The loops compute the closed expressions\<close>

lemma Sprintf_docKey:
  "Sprintf docKeyFmt [AString a, AString h, ABytes cb] = a @ ''-'' @ h @ ''-'' @ hexBytes cb"
  by (simp add: docKeyFmt_def)

lemma Sprintf_docKey_Hash:
  "Sprintf docKeyFmt [AString a, AString h, AHash cb] = a @ ''-'' @ h @ ''-'' @ hexString (hexBytes cb)"
  by (simp add: docKeyFmt_def HashString_def)

lemma Sprintf_resultKey:
  "Sprintf resultKeyFmt [ABytes b, AString h] = hexBytes b @ ''-'' @ h"
  by (simp add: resultKeyFmt_def)

lemma Sprintf_treeKey:
  "Sprintf treeKeyFmt [ABytes b, AString h, AInt f, AInt g] =
     hexBytes b @ ''-'' @ h @ ''-'' @ FormatInt f 10 @ ''-'' @ FormatInt g 10"
  by (simp add: treeKeyFmt_def)

lemma newResultLoop_eq:
  "newResultLoop rs (ps, hs) = (ps @ map Path rs, hs @ map Hash rs)"
  by (induction rs arbitrary: ps hs) auto

lemma newResult_eq:
  "newResult v h = \<lparr>bucket_hash = h, bucket_results_path = map Path v, bucket_results_hash = map Hash v\<rparr>"
  by (simp add: newResult_def newResultLoop_eq)

lemma newDocLoop_ok:
  "i + length vs \<le> length base \<Longrightarrow>
   newDocLoop brs i vs base acc =
     (if length brs = 0 then Inr acc else Inr (acc @ specResults vs (drop i base)))"
proof (induction vs arbitrary: i acc)
  case Nil
  then show ?case by (simp add: specResults_def)
next
  case (Cons v vs)
  from Cons.prems have lt: "i < length base" and le: "Suc i + length vs \<le> length base" by auto
  have d: "drop i base = base ! i # drop (Suc i) base"
    using lt by (simp add: Cons_nth_drop_Suc)
  show ?case
  proof (cases "brs = []")
    case True
    with Cons.IH[OF le] show ?thesis by simp
  next
    case False
    with Cons.IH[OF le] lt show ?thesis by (simp add: d specResults_def newResult_eq)
  qed
qed

lemma newDocLoop_panic:
  "length brs \<noteq> 0 \<Longrightarrow> vs \<noteq> [] \<Longrightarrow> length base < i + length vs \<Longrightarrow>
   newDocLoop brs i vs base acc = Inl IndexOutOfRange"
proof (induction vs arbitrary: i acc)
  case Nil
  then show ?case by simp
next
  case (Cons v vs)
  show ?case
  proof (cases "i < length base")
    case True
    with Cons.prems have "vs \<noteq> []" "length base < Suc i + length vs" by auto
    with Cons.IH[of "Suc i"] Cons.prems(1) True show ?thesis by simp
  next
    case False
    with Cons.prems(1) show ?thesis by simp
  qed
qed

lemma newDoc_eq:
  "newDoc repoInfo hashType brs base =
     (if length brs \<le> length base then Inr (specDocument repoInfo hashType, specResults brs base)
      else Inl IndexOutOfRange)"
proof (cases "length brs \<le> length base")
  case True
  then show ?thesis
    using newDocLoop_ok[of 0 brs base brs "[]"]
    by (auto simp: newDoc_def specDocument_def specResults_def)
next
  case False
  then have "brs \<noteq> []" "length base < 0 + length brs" by auto
  then show ?thesis
    using newDocLoop_panic[of brs brs base 0 "[]"] False by (simp add: newDoc_def)
qed

lemma collectLayer_eq:
  "collectLayer dk ht layer (ks, ns) =
     (ks @ map (specTreeKey dk ht) (filter (\<lambda>n. FilesContained n \<noteq> 0) layer),
      ns @ filter (\<lambda>n. FilesContained n \<noteq> 0) layer)"
  by (induction layer arbitrary: ks ns)
     (auto simp: specTreeKey_def treeKind_def Sprintf_treeKey)

lemma putResults_eq:
  "putResults c dk ht rs tx = runOps c (map (\<lambda>r. OpPut (specResultKey dk ht r) (EResult r)) rs) tx"
  by (induction rs arbitrary: tx)
     (auto simp: txPut_def specResultKey_def resultKind_def Sprintf_resultKey split: option.splits)

lemma putLayers_eq:
  "putLayers c dk ht tns tx = runOps c (map (layerOp dk ht) tns) tx"
  by (induction tns arbitrary: tx)
     (auto simp: txPutMulti_def layerOp_def collectLayer_eq split: option.splits)

lemma runOps_append:
  "runOps c (xs @ ys) tx =
     (case runOps c xs tx of Inl err \<Rightarrow> Inl err | Inr tx' \<Rightarrow> runOps c ys tx')"
  by (induction xs arbitrary: tx) (auto split: option.splits)

lemma storeTx_eq:
  "storeTx c dk ht doc rs tns tx = runOps c (specOps dk ht doc rs tns) tx"
  by (auto simp: storeTx_def specOps_def txPut_def putResults_eq putLayers_eq runOps_append
           split: option.splits sum.splits)

lemma runOps_find:
  "runOps c ops tx =
     (case find (\<lambda>op. opErr c op \<noteq> None) ops of
        Some op \<Rightarrow> Inl (the (opErr c op))
      | None \<Rightarrow> Inr (tx @ concat (map opWrites ops)))"
  by (induction ops arbitrary: tx) (auto split: option.splits)

lemma specOps_writes:
  "concat (map opWrites (specOps dk ht doc rs tns)) = specRecords dk ht doc rs tns"
proof -
  have a: "concat (map opWrites (map (\<lambda>r. OpPut (specResultKey dk ht r) (EResult r)) rs)) =
           map (\<lambda>r. (specResultKey dk ht r, EResult r)) rs"
    by (induction rs) auto
  have b: "concat (map opWrites (map (layerOp dk ht) tns)) =
           concat (map (\<lambda>layer. map (\<lambda>n. (specTreeKey dk ht n, ETreeNode n))
                            (filter (\<lambda>n. FilesContained n \<noteq> 0) layer)) tns)"
    by (induction tns) (auto simp: layerOp_def zip_map_map zip_same_conv_map)
  show ?thesis
    using a b by (simp add: specOps_def specRecords_def)
qed







section \<open>Writes to the store and distinct keys\<close>

lemma applyMutations_eq: "applyMutations ds ms = ds ++ map_of (rev ms)"
proof (induction ms arbitrary: ds)
  case Nil
  then show ?case by (simp add: applyMutations_def)
next
  case (Cons m ms)
  obtain k e where m: "m = (k, e)" by (cases m)
  have "applyMutations ds (m # ms) = applyMutations (ds(k \<mapsto> e)) ms"
    by (simp add: applyMutations_def m)
  also have "\<dots> = ds(k \<mapsto> e) ++ map_of (rev ms)" by (rule Cons.IH)
  also have "\<dots> = ds ++ map_of (rev ms @ [(k, e)])"
    by (simp add: map_add_def fun_eq_iff split: option.splits)
  finally show ?case by (simp add: m)
qed

lemma applyMutations_other:
  "k \<notin> fst ` set ms \<Longrightarrow> applyMutations ds ms k = ds k"
  by (simp add: applyMutations_eq map_add_def map_of_eq_None_iff[THEN iffD2] split: option.splits)

lemma applyMutations_written:
  "k \<in> fst ` set ms \<Longrightarrow> \<exists>e. (k, e) \<in> set ms \<and> applyMutations ds ms k = Some e"
proof -
  assume "k \<in> fst ` set ms"
  then have "map_of (rev ms) k \<noteq> None" by (simp add: map_of_eq_None_iff)
  then obtain e where e: "map_of (rev ms) k = Some e" by auto
  then have "(k, e) \<in> set ms" by (auto dest: map_of_SomeD)
  with e show ?thesis by (auto simp: applyMutations_eq map_add_def)
qed

lemma applyMutations_cases:
  "applyMutations ds ms k = Some e \<Longrightarrow> (k, e) \<in> set ms \<or> (k \<notin> fst ` set ms \<and> ds k = Some e)"
  using applyMutations_written[of k ms ds] applyMutations_other[of k ms ds] by (cases "k \<in> fst ` set ms") auto

lemma specRecords_cases:
  "(k, e) \<in> set (specRecords dk ht doc rs tns) \<Longrightarrow>
     (k = dk \<and> e = EDocument doc) \<or>
     (\<exists>r\<in>set rs. k = specResultKey dk ht r \<and> e = EResult r) \<or>
     (\<exists>layer\<in>set tns. \<exists>n\<in>set layer. FilesContained n \<noteq> 0 \<and> k = specTreeKey dk ht n \<and> e = ETreeNode n)"
  by (auto simp: specRecords_def)

lemma digitChars_no_dash: "digitChars ! (n mod 16) \<noteq> CHR ''-''"
proof -
  have "length digitChars = 36" by (simp add: digitChars_def)
  moreover have "n mod 16 < 36" by (rule less_trans[of _ 16]) simp_all
  ultimately have "digitChars ! (n mod 16) \<in> set digitChars" by (intro nth_mem) simp
  moreover have "CHR ''-'' \<notin> set digitChars" by (simp add: digitChars_def)
  ultimately show ?thesis by metis
qed

lemma hexByte_no_dash: "CHR ''-'' \<notin> set (hexByte n)"
  using digitChars_no_dash[of "n div 16"] digitChars_no_dash[of n]
  by (auto simp: hexByte_def)

lemma hexBytes_no_dash: "CHR ''-'' \<notin> set (hexBytes bs)"
  by (auto simp: hexBytes_def hexByte_no_dash)

lemma digitChars_nonzero: "0 < n \<Longrightarrow> n < 10 \<Longrightarrow> digitChars ! n \<noteq> CHR ''0''"
proof -
  assume "0 < n" "n < 10"
  then have "n \<in> {1, 2, 3, 4, 5, 6, 7, 8, 9}" by auto
  then show ?thesis by (auto simp: digitChars_def)
qed

lemma formatBits_head:
  "0 < n \<Longrightarrow> \<exists>d ds. formatBits 10 n = d # ds \<and> d \<noteq> CHR ''0''"
proof (induction n rule: less_induct)
  case (less n)
  show ?case
  proof (cases "n < 10")
    case True
    with less.prems digitChars_nonzero[of n] show ?thesis by (subst formatBits.simps) simp
  next
    case False
    then have "0 < n div 10" "n div 10 < n" by auto
    from less.IH[OF this(2) this(1)] obtain d ds where "formatBits 10 (n div 10) = d # ds" "d \<noteq> CHR ''0''"
      by auto
    with False show ?thesis by (subst formatBits.simps) simp
  qed
qed

lemma FormatInt_head:
  "f \<noteq> 0 \<Longrightarrow> \<exists>d ds. FormatInt f 10 = d # ds \<and> d \<noteq> CHR ''0''"
proof (cases "f < 0")
  case True
  then show ?thesis by (simp add: FormatInt_def)
next
  case False
  assume "f \<noteq> 0"
  with False have "0 < nat f" by simp
  from formatBits_head[OF this] False show ?thesis by (simp add: FormatInt_def)
qed

lemma FormatInt_zero: "FormatInt 0 10 = ''0''"
  by (simp add: FormatInt_def formatBits.simps digitChars_def)

lemma split_at_first:
  "c \<notin> set a \<Longrightarrow> c \<notin> set b \<Longrightarrow> a @ c # r = b @ c # s \<Longrightarrow> a = b \<and> r = s"
proof (induction a arbitrary: b)
  case Nil
  then show ?case by (cases b) auto
next
  case (Cons x a)
  then show ?case by (cases b) auto
qed

lemma specTreeKey_zero_neq:
  assumes "FilesContained n = 0" "FilesContained m \<noteq> 0"
  shows "specTreeKey dk ht n \<noteq> specTreeKey dk ht m"
proof
  assume eq: "specTreeKey dk ht n = specTreeKey dk ht m"
  from FormatInt_head[OF assms(2)] obtain d ds where
    fm: "FormatInt (FilesContained m) 10 = d # ds" and d: "d \<noteq> CHR ''0''" by auto
  from eq have "keyName (specTreeKey dk ht n) = keyName (specTreeKey dk ht m)"
    by (rule arg_cong)
  then have "hexBytes (NodeHash n) @ CHR ''-'' # (ht @ CHR ''-'' # CHR ''0'' # CHR ''-'' # FormatInt (Height n) 10) =
     hexBytes (NodeHash m) @ CHR ''-'' # (ht @ CHR ''-'' # d # ds @ CHR ''-'' # FormatInt (Height m) 10)"
    by (simp only: specTreeKey_def dskey.sel assms(1) FormatInt_zero fm append.simps)
  then have "ht @ CHR ''-'' # CHR ''0'' # CHR ''-'' # FormatInt (Height n) 10 =
             ht @ CHR ''-'' # d # ds @ CHR ''-'' # FormatInt (Height m) 10"
    using split_at_first[OF hexBytes_no_dash hexBytes_no_dash] by blast
  then have "CHR ''0'' = d" by (simp only: same_append_eq list.inject)
  with d show False by simp
qed

lemma specTreeKey_kind:
  "specTreeKey dk ht n \<noteq> specDocKey a h cb" "specTreeKey dk ht n \<noteq> specResultKey dk' ht' r"
  "specResultKey dk ht r \<noteq> specDocKey a h cb"
  by (simp_all add: specTreeKey_def specDocKey_def specResultKey_def)

section \<open>What a call of Store does\<close>

lemma StoreStore_eq:
  "StoreStore c ds ri ht brs tns =
     (if tns = [] \<or> length (hd tns) < length brs then Inl IndexOutOfRange
      else Inr (case find (\<lambda>op. opErr c op \<noteq> None) (specStoreOps ri ht brs tns) of
                  Some op \<Rightarrow> (opErr c op, ds)
                | None \<Rightarrow>
                    (case commitErr c ds (specStoreRecords ri ht brs tns) of
                       Some err \<Rightarrow> (Some err, ds)
                     | None \<Rightarrow> (None, applyMutations ds (specStoreRecords ri ht brs tns)))))"
proof (cases tns)
  case Nil
  then show ?thesis by (simp add: StoreStore_def)
next
  case (Cons base rest)
  have dk: "NameKey docKind (Sprintf docKeyFmt [AString (Addr ri), AString ht, ABytes (Commit ri)]) None =
            specDocKey (Addr ri) ht (Commit ri)"
    by (simp add: docKind_def specDocKey_def Sprintf_docKey)
  show ?thesis
  proof (cases "length brs \<le> length base")
    case False
    with Cons show ?thesis by (simp add: StoreStore_def newDoc_eq)
  next
    case True
    have "StoreStore c ds ri ht brs tns =
          Inr (RunInTransaction c
                 (storeTx c (specDocKey (Addr ri) ht (Commit ri)) ht (specDocument ri ht)
                    (specResults brs base) tns) ds)"
      using Cons True by (simp add: StoreStore_def Let_def dk newDoc_eq)
    also have "RunInTransaction c
                 (storeTx c (specDocKey (Addr ri) ht (Commit ri)) ht (specDocument ri ht)
                    (specResults brs base) tns) ds =
        (case find (\<lambda>op. opErr c op \<noteq> None) (specStoreOps ri ht brs tns) of
                  Some op \<Rightarrow> (opErr c op, ds)
                | None \<Rightarrow>
                    (case commitErr c ds (specStoreRecords ri ht brs tns) of
                       Some err \<Rightarrow> (Some err, ds)
                     | None \<Rightarrow> (None, applyMutations ds (specStoreRecords ri ht brs tns))))"
      using Cons
      by (auto simp: RunInTransaction_def storeTx_eq runOps_find specOps_writes specStoreOps_def
            specStoreRecords_def split: option.splits dest: find_Some_iff[THEN iffD1])
    finally show ?thesis using Cons True by simp
  qed
qed

lemma applyMutations_twice:
  "applyMutations (applyMutations ds ms) ms = applyMutations ds ms"
  by (simp add: applyMutations_eq fun_eq_iff map_add_def split: option.splits)

lemma StoreStore_success:
  "StoreStore c ds ri ht brs tns = Inr (None, ds') \<Longrightarrow>
   ds' = applyMutations ds (specStoreRecords ri ht brs tns)"
  by (auto simp: StoreStore_eq split: if_splits option.splits dest: find_Some_iff[THEN iffD1])

lemma StoreStore_pre:
  "StoreStore c ds ri ht brs tns = Inr x \<Longrightarrow> tns \<noteq> [] \<and> length brs \<le> length (hd tns)"
  by (auto simp: StoreStore_eq split: if_splits)

lemma specResults_nth:
  "i < length brs \<Longrightarrow> length brs \<le> length base \<Longrightarrow>
   specResults brs base ! i =
     \<lparr>bucket_hash = NodeHash (base ! i), bucket_results_path = map Path (brs ! i),
      bucket_results_hash = map Hash (brs ! i)\<rparr>"
  by (simp add: specResults_def)

lemma Store_persists_results:
  assumes ok: "StoreStore c ds ri ht brs tns = Inr (None, ds')" and i: "i < length brs"
  shows "\<exists>r. ds' (NameKey ''RepoIndexBucket'' (hexBytes (NodeHash (hd tns ! i)) @ ''-'' @ ht)
                  (Some (specDocKey (Addr ri) ht (Commit ri)))) = Some (EResult r)"
proof -
  let ?dk = "specDocKey (Addr ri) ht (Commit ri)"
  let ?recs = "specStoreRecords ri ht brs tns"
  let ?rs = "specResults brs (hd tns)"
  from StoreStore_pre[OF ok] have pre: "length brs \<le> length (hd tns)" by simp
  have eq: "ds' = applyMutations ds ?recs" using ok by (rule StoreStore_success)
  have len: "length ?rs = length brs" using pre by (simp add: specResults_def)
  have key: "specResultKey ?dk ht (?rs ! i) =
      NameKey ''RepoIndexBucket'' (hexBytes (NodeHash (hd tns ! i)) @ ''-'' @ ht) (Some ?dk)"
    using i pre by (simp add: specResults_nth specResultKey_def)
  have "?rs ! i \<in> set ?rs" using i len by simp
  then have "(specResultKey ?dk ht (?rs ! i), EResult (?rs ! i)) \<in> set ?recs"
    by (simp add: specStoreRecords_def specRecords_def)
  then have "specResultKey ?dk ht (?rs ! i) \<in> fst ` set ?recs" by force
  from applyMutations_written[OF this, of ds] obtain e where
    e: "(specResultKey ?dk ht (?rs ! i), e) \<in> set ?recs" "ds' (specResultKey ?dk ht (?rs ! i)) = Some e"
    unfolding eq by blast
  from e(1) have "(specResultKey ?dk ht (?rs ! i), e) \<in> set (specRecords ?dk ht (specDocument ri ht) ?rs tns)"
    by (simp add: specStoreRecords_def)
  from specRecords_cases[OF this] obtain r where "e = EResult r"
    using specTreeKey_kind(2)[of ?dk ht _ ?dk ht "?rs ! i"]
      specTreeKey_kind(3)[of ?dk ht "?rs ! i" "Addr ri" ht "Commit ri"]
    by metis
  with e(2) key show ?thesis by simp
qed


section \<open>Evaluation on the example inputs\<close>

lemmas ex_defs = okClient_def putMultiFails_def exRepo_def exNodeA_def exNodeB_def exNodeC_def
  exFile_def exDocKey_def exDoc_def exKeyA_def exKeyC_def exStore0_def exStore1_def exStore2_def
  exKeyR_def exKeyB_def exResult_def exStore3_def getFails_def exFlags_def exEnts_def
  exKeyR2_def exResult2_def exStore4_def

lemmas eval_defs = StoreStore_def newDoc_def newResult_def RunInTransaction_def storeTx_def
  txPut_def txPutMulti_def applyMutations_def docKind_def resultKind_def treeKind_def
  docKeyFmt_def resultKeyFmt_def treeKeyFmt_def hexBytes_def hexByte_def hexString_def
  HashString_def digitChars_def FormatInt_def formatBits.simps Let_def

lemmas spec_defs = specStoreOps_def specStoreRecords_def specOps_def specRecords_def layerOp_def
  specDocKey_def specResultKey_def specTreeKey_def specDocument_def specResults_def

lemma exStore3_run:
  "StoreStore okClient Map.empty exRepo ''md5'' [[exFile]] [[exNodeA, exNodeB]] = Inr (None, exStore3)"
  by (simp add: ex_defs eval_defs)

lemma exStore1_run:
  "StoreStore okClient Map.empty exRepo ''md5'' [] [[exNodeA]] = Inr (None, exStore1)"
  by (simp add: ex_defs eval_defs)

lemma exStore2_run:
  "StoreStore okClient exStore1 exRepo ''md5'' [] [[exNodeC]] = Inr (None, exStore2)"
  by (simp add: ex_defs eval_defs)

lemma exStore4_run:
  "StoreStore okClient Map.empty exRepo ''md5'' [[exFile], []] [[exNodeA, exNodeB]] = Inr (None, exStore4)"
  by (simp add: ex_defs eval_defs)

lemma Exists_cached:
  "cache s (Sprintf docKeyFmt [AString addr, AString ht, AHash h]) = Some b \<Longrightarrow>
   Exists c s ds addr ht h = (s, True, None)"
  by (simp add: Exists_def)

lemma Exists_caches_hit:
  "Exists c s ds addr ht h = (s', True, None) \<Longrightarrow>
   cache s' (Sprintf docKeyFmt [AString addr, AString ht, AHash h]) \<noteq> None"
  by (auto simp: Exists_def Let_def split: option.splits sum.splits if_splits)

section \<open>The claims\<close>

text \<open>
  Claim C1. The writes of a call of \<open>Store\<close> are one transaction. When the call returns
  no error, the store is the old store with every record of the call written: the
  document, every bucket result and every tree node with files; each of their keys holds
  a record of the call and every other key is as before. When the call returns an error,
  the store is unchanged. When a \<^verbatim>\<open>Put\<close> or \<^verbatim>\<open>PutMulti\<close> of the call is refused, the call
  returns the error of the first refused one and the store is unchanged; when none is
  refused and the commit succeeds, the call returns no error.
\<close>

theorem Store_atomic:
  "(StoreStore c ds ri ht brs tns = Inr (None, ds') \<longrightarrow>
      ds' = applyMutations ds (specStoreRecords ri ht brs tns) \<and>
      (\<forall>k\<in>fst ` set (specStoreRecords ri ht brs tns).
          \<exists>e. (k, e) \<in> set (specStoreRecords ri ht brs tns) \<and> ds' k = Some e) \<and>
      (\<forall>k. k \<notin> fst ` set (specStoreRecords ri ht brs tns) \<longrightarrow> ds' k = ds k)) \<and>
   (StoreStore c ds ri ht brs tns = Inr (Some err, ds') \<longrightarrow> ds' = ds) \<and>
   (tns \<noteq> [] \<and> length brs \<le> length (hd tns) \<and>
    find (\<lambda>op. opErr c op \<noteq> None) (specStoreOps ri ht brs tns) = Some op \<longrightarrow>
      opErr c op \<noteq> None \<and> StoreStore c ds ri ht brs tns = Inr (opErr c op, ds)) \<and>
   (tns \<noteq> [] \<and> length brs \<le> length (hd tns) \<and>
    (\<forall>op\<in>set (specStoreOps ri ht brs tns). opErr c op = None) \<and>
    commitErr c ds (specStoreRecords ri ht brs tns) = None \<longrightarrow>
      StoreStore c ds ri ht brs tns = Inr (None, applyMutations ds (specStoreRecords ri ht brs tns)))"
proof (intro conjI impI)
  assume ok: "StoreStore c ds ri ht brs tns = Inr (None, ds')"
  then show eq: "ds' = applyMutations ds (specStoreRecords ri ht brs tns)"
    by (auto simp: StoreStore_eq split: if_splits option.splits dest: find_Some_iff[THEN iffD1])
  show "\<forall>k\<in>fst ` set (specStoreRecords ri ht brs tns).
          \<exists>e. (k, e) \<in> set (specStoreRecords ri ht brs tns) \<and> ds' k = Some e"
    unfolding eq using applyMutations_written by blast
  show "\<forall>k. k \<notin> fst ` set (specStoreRecords ri ht brs tns) \<longrightarrow> ds' k = ds k"
    unfolding eq using applyMutations_other by blast
next
  assume "StoreStore c ds ri ht brs tns = Inr (Some err, ds')"
  then show "ds' = ds"
    by (auto simp: StoreStore_eq split: if_splits option.splits)
next
  assume h: "tns \<noteq> [] \<and> length brs \<le> length (hd tns) \<and>
    find (\<lambda>op. opErr c op \<noteq> None) (specStoreOps ri ht brs tns) = Some op"
  then show "opErr c op \<noteq> None" by (auto simp: find_Some_iff)
  from h show "StoreStore c ds ri ht brs tns = Inr (opErr c op, ds)"
    by (simp add: StoreStore_eq)
next
  assume h: "tns \<noteq> [] \<and> length brs \<le> length (hd tns) \<and>
    (\<forall>op\<in>set (specStoreOps ri ht brs tns). opErr c op = None) \<and>
    commitErr c ds (specStoreRecords ri ht brs tns) = None"
  then have "find (\<lambda>op. opErr c op \<noteq> None) (specStoreOps ri ht brs tns) = None"
    by (simp add: find_None_iff)
  with h show "StoreStore c ds ri ht brs tns =
      Inr (None, applyMutations ds (specStoreRecords ri ht brs tns))"
    by (simp add: StoreStore_eq)
qed

theorem Store_atomic_witness:
  "StoreStore okClient Map.empty exRepo ''md5'' [[exFile]] [[exNodeA, exNodeB]] = Inr (None, exStore3) \<and>
   exStore3 = applyMutations Map.empty (specStoreRecords exRepo ''md5'' [[exFile]] [[exNodeA, exNodeB]]) \<and>
   exStore3 exKeyB = None \<and>
   StoreStore putMultiFails Map.empty exRepo ''md5'' [[exFile]] [[exNodeA, exNodeB]] =
     Inr (Some (ErrOther 7), Map.empty)"
proof (intro conjI)
  note ok = Store_atomic[where c = okClient and ds = Map.empty and ri = exRepo and ht = "''md5''"
        and brs = "[[exFile]]" and tns = "[[exNodeA, exNodeB]]"]
  have run: "StoreStore okClient Map.empty exRepo ''md5'' [[exFile]] [[exNodeA, exNodeB]] =
     Inr (None, applyMutations Map.empty (specStoreRecords exRepo ''md5'' [[exFile]] [[exNodeA, exNodeB]]))"
    using ok[THEN conjunct2, THEN conjunct2, THEN conjunct2]
    by (simp add: okClient_def specStoreOps_def specOps_def layerOp_def specResults_def)
  have recs: "applyMutations Map.empty (specStoreRecords exRepo ''md5'' [[exFile]] [[exNodeA, exNodeB]]) = exStore3"
    by (simp add: ex_defs spec_defs eval_defs)
  from run recs
  show run3: "StoreStore okClient Map.empty exRepo ''md5'' [[exFile]] [[exNodeA, exNodeB]] = Inr (None, exStore3)"
    by simp
  from ok[where ds' = exStore3, THEN conjunct1] run3
  show "exStore3 = applyMutations Map.empty (specStoreRecords exRepo ''md5'' [[exFile]] [[exNodeA, exNodeB]])"
    by blast
  have "exKeyB \<notin> fst ` set (specStoreRecords exRepo ''md5'' [[exFile]] [[exNodeA, exNodeB]])"
    by (simp add: ex_defs spec_defs eval_defs)
  with ok[where ds' = exStore3, THEN conjunct1] run3
  show "exStore3 exKeyB = None"
    by simp
next
  note bad = Store_atomic[where c = putMultiFails and ds = Map.empty and ri = exRepo and ht = "''md5''"
        and brs = "[[exFile]]" and tns = "[[exNodeA, exNodeB]]"]
  have "find (\<lambda>op. opErr putMultiFails op \<noteq> None) (specStoreOps exRepo ''md5'' [[exFile]] [[exNodeA, exNodeB]]) =
     Some (layerOp (specDocKey (Addr exRepo) ''md5'' (Commit exRepo)) ''md5'' [exNodeA, exNodeB])"
    by (simp add: putMultiFails_def specStoreOps_def specOps_def layerOp_def specResults_def)
  then have fail: "StoreStore putMultiFails Map.empty exRepo ''md5'' [[exFile]] [[exNodeA, exNodeB]] =
     Inr (Some (ErrOther 7), Map.empty)"
    using bad[where op = "layerOp (specDocKey (Addr exRepo) ''md5'' (Commit exRepo)) ''md5'' [exNodeA, exNodeB]",
        THEN conjunct2, THEN conjunct2, THEN conjunct1]
    by (simp add: putMultiFails_def layerOp_def)
  from bad[where err = "ErrOther 7" and ds' = Map.empty, THEN conjunct2, THEN conjunct1] fail
  show "StoreStore putMultiFails Map.empty exRepo ''md5'' [[exFile]] [[exNodeA, exNodeB]] =
     Inr (Some (ErrOther 7), Map.empty)"
    by simp
qed

text \<open>
  Claim C2. The keys that a successful call of \<open>Store\<close> writes, in order: the document key
  \<^verbatim>\<open>RepoIndex\<close> named address, hash type and the commit in hexadecimal, joined by dashes,
  without parent; for every bucket result the key \<^verbatim>\<open>RepoIndexBucket\<close> named bucket hash in
  hexadecimal and hash type, under the document key; for every tree node with files the key
  \<^verbatim>\<open>RepoIndexResultTree\<close> named node hash in hexadecimal, hash type, number of files and
  height, under the document key.
\<close>

theorem Store_key_scheme:
  assumes "StoreStore c ds ri ht brs tns = Inr (None, ds')"
  shows "\<exists>ms. ds' = applyMutations ds ms \<and>
     map fst ms =
       NameKey ''RepoIndex'' (Addr ri @ ''-'' @ ht @ ''-'' @ hexBytes (Commit ri)) None #
       map (\<lambda>r. NameKey ''RepoIndexBucket'' (hexBytes (bucket_hash r) @ ''-'' @ ht)
                  (Some (NameKey ''RepoIndex'' (Addr ri @ ''-'' @ ht @ ''-'' @ hexBytes (Commit ri)) None)))
           (specResults brs (hd tns)) @
       concat (map (\<lambda>layer.
                 map (\<lambda>n. NameKey ''RepoIndexResultTree''
                             (hexBytes (NodeHash n) @ ''-'' @ ht @ ''-'' @
                              FormatInt (FilesContained n) 10 @ ''-'' @ FormatInt (Height n) 10)
                             (Some (NameKey ''RepoIndex'' (Addr ri @ ''-'' @ ht @ ''-'' @ hexBytes (Commit ri)) None)))
                     (filter (\<lambda>n. FilesContained n \<noteq> 0) layer)) tns)"
proof -
  from assms have eq: "ds' = applyMutations ds (specStoreRecords ri ht brs tns)"
    by (auto simp: StoreStore_eq split: if_splits option.splits dest: find_Some_iff[THEN iffD1])
  have keys: "map fst (specRecords dk ht' doc rs tns) =
      dk # map (specResultKey dk ht') rs @
      concat (map (\<lambda>layer. map (specTreeKey dk ht') (filter (\<lambda>n. FilesContained n \<noteq> 0) layer)) tns)"
    for dk ht' doc rs
    by (simp add: specRecords_def map_concat comp_def)
  have k: "map fst (specStoreRecords ri ht brs tns) =
       NameKey ''RepoIndex'' (Addr ri @ ''-'' @ ht @ ''-'' @ hexBytes (Commit ri)) None #
       map (\<lambda>r. NameKey ''RepoIndexBucket'' (hexBytes (bucket_hash r) @ ''-'' @ ht)
                  (Some (NameKey ''RepoIndex'' (Addr ri @ ''-'' @ ht @ ''-'' @ hexBytes (Commit ri)) None)))
           (specResults brs (hd tns)) @
       concat (map (\<lambda>layer.
                 map (\<lambda>n. NameKey ''RepoIndexResultTree''
                             (hexBytes (NodeHash n) @ ''-'' @ ht @ ''-'' @
                              FormatInt (FilesContained n) 10 @ ''-'' @ FormatInt (Height n) 10)
                             (Some (NameKey ''RepoIndex'' (Addr ri @ ''-'' @ ht @ ''-'' @ hexBytes (Commit ri)) None)))
                     (filter (\<lambda>n. FilesContained n \<noteq> 0) layer)) tns)"
    unfolding specStoreRecords_def keys
    unfolding specDocKey_def specResultKey_def specTreeKey_def ..
  show ?thesis
    by (rule exI[of _ "specStoreRecords ri ht brs tns"]) (rule conjI[OF eq k])
qed

theorem Store_key_scheme_witness:
  "StoreStore okClient Map.empty exRepo ''md5'' [[exFile]] [[exNodeA, exNodeB]] = Inr (None, exStore3) \<and>
   (\<exists>ms. exStore3 = applyMutations Map.empty ms \<and> map fst ms = [exDocKey, exKeyR, exKeyA])"
  using Store_key_scheme[OF exStore3_run] exStore3_run
  by (simp add: ex_defs spec_defs eval_defs)

text \<open>
  Claim C3. After a successful call of \<open>Store\<close>, for every node of every layer: a node with
  files has a tree-node record with files under its key; a node without files leaves the
  entry of its key as it was; and every tree-node record of the store that the call did
  not find there already has \<open>FilesContained\<close> different from zero.
\<close>

theorem Store_tree_nodes:
  assumes ok: "StoreStore c ds ri ht brs tns = Inr (None, ds')"
    and layer: "layer \<in> set tns" and n: "n \<in> set layer"
  shows "(FilesContained n \<noteq> 0 \<longrightarrow>
            (\<exists>m. ds' (specTreeKey (specDocKey (Addr ri) ht (Commit ri)) ht n) = Some (ETreeNode m) \<and>
                 FilesContained m \<noteq> 0 \<and>
                 specTreeKey (specDocKey (Addr ri) ht (Commit ri)) ht m =
                 specTreeKey (specDocKey (Addr ri) ht (Commit ri)) ht n)) \<and>
         (FilesContained n = 0 \<longrightarrow>
            ds' (specTreeKey (specDocKey (Addr ri) ht (Commit ri)) ht n) =
            ds (specTreeKey (specDocKey (Addr ri) ht (Commit ri)) ht n)) \<and>
         (\<forall>k m. ds' k = Some (ETreeNode m) \<longrightarrow> FilesContained m \<noteq> 0 \<or> ds k = Some (ETreeNode m))"
proof -
  let ?dk = "specDocKey (Addr ri) ht (Commit ri)"
  let ?recs = "specStoreRecords ri ht brs tns"
  from ok have eq: "ds' = applyMutations ds ?recs"
    by (auto simp: StoreStore_eq split: if_splits option.splits dest: find_Some_iff[THEN iffD1])
  have cases: "\<And>k e. (k, e) \<in> set ?recs \<Longrightarrow>
     (k = ?dk \<and> e = EDocument (specDocument ri ht)) \<or>
     (\<exists>r\<in>set (specResults brs (hd tns)). k = specResultKey ?dk ht r \<and> e = EResult r) \<or>
     (\<exists>layer\<in>set tns. \<exists>n\<in>set layer. FilesContained n \<noteq> 0 \<and> k = specTreeKey ?dk ht n \<and> e = ETreeNode n)"
    unfolding specStoreRecords_def by (rule specRecords_cases)
  have a: "FilesContained n \<noteq> 0 \<longrightarrow>
            (\<exists>m. ds' (specTreeKey ?dk ht n) = Some (ETreeNode m) \<and> FilesContained m \<noteq> 0 \<and>
                 specTreeKey ?dk ht m = specTreeKey ?dk ht n)"
  proof
    assume nz: "FilesContained n \<noteq> 0"
    with layer n have "(specTreeKey ?dk ht n, ETreeNode n) \<in> set ?recs"
      by (auto simp: specStoreRecords_def specRecords_def)
    then have "specTreeKey ?dk ht n \<in> fst ` set ?recs" by force
    from applyMutations_written[OF this, of ds] obtain e where
      e: "(specTreeKey ?dk ht n, e) \<in> set ?recs" "ds' (specTreeKey ?dk ht n) = Some e"
      unfolding eq by blast
    from cases[OF e(1)] obtain m where "FilesContained m \<noteq> 0"
      "specTreeKey ?dk ht n = specTreeKey ?dk ht m" "e = ETreeNode m"
      using specTreeKey_kind by blast
    with e(2) show "\<exists>m. ds' (specTreeKey ?dk ht n) = Some (ETreeNode m) \<and> FilesContained m \<noteq> 0 \<and>
                 specTreeKey ?dk ht m = specTreeKey ?dk ht n"
      by auto
  qed
  have b: "FilesContained n = 0 \<longrightarrow> ds' (specTreeKey ?dk ht n) = ds (specTreeKey ?dk ht n)"
  proof
    assume z: "FilesContained n = 0"
    have "specTreeKey ?dk ht n \<notin> fst ` set ?recs"
    proof
      assume "specTreeKey ?dk ht n \<in> fst ` set ?recs"
      then obtain e where "(specTreeKey ?dk ht n, e) \<in> set ?recs" by force
      from cases[OF this] obtain m where "FilesContained m \<noteq> 0"
        "specTreeKey ?dk ht n = specTreeKey ?dk ht m"
        using specTreeKey_kind by blast
      with specTreeKey_zero_neq[OF z this(1)] show False by blast
    qed
    then show "ds' (specTreeKey ?dk ht n) = ds (specTreeKey ?dk ht n)"
      unfolding eq by (rule applyMutations_other)
  qed
  have c: "\<forall>k m. ds' k = Some (ETreeNode m) \<longrightarrow> FilesContained m \<noteq> 0 \<or> ds k = Some (ETreeNode m)"
  proof (intro allI impI)
    fix k m
    assume "ds' k = Some (ETreeNode m)"
    from applyMutations_cases[OF this[unfolded eq]]
    show "FilesContained m \<noteq> 0 \<or> ds k = Some (ETreeNode m)"
    proof
      assume "(k, ETreeNode m) \<in> set ?recs"
      from cases[OF this] show ?thesis by auto
    next
      assume "k \<notin> fst ` set ?recs \<and> ds k = Some (ETreeNode m)"
      then show ?thesis by simp
    qed
  qed
  from a b c show ?thesis by blast
qed

theorem Store_tree_nodes_witness:
  "StoreStore okClient Map.empty exRepo ''md5'' [[exFile]] [[exNodeA, exNodeB]] = Inr (None, exStore3) \<and>
   (\<exists>m. exStore3 exKeyA = Some (ETreeNode m) \<and> FilesContained m \<noteq> 0) \<and>
   exStore3 exKeyB = None"
  using Store_tree_nodes[OF exStore3_run, of "[exNodeA, exNodeB]" exNodeA]
    Store_tree_nodes[OF exStore3_run, of "[exNodeA, exNodeB]" exNodeB] exStore3_run
  by (simp add: ex_defs spec_defs eval_defs)

text \<open>
  Claim C4, as amended. A call of \<open>Store\<close> with no bucket results and at least one tree
  layer, in which no node of any layer has files, returns no error and writes the document
  and nothing else, provided that the client accepts the document and the empty
  \<^verbatim>\<open>PutMulti\<close> and the commit succeeds.
\<close>

theorem Store_empty_repository:
  assumes "tns \<noteq> []" and "\<forall>layer\<in>set tns. \<forall>n\<in>set layer. FilesContained n = 0"
    and "putErr c (specDocKey (Addr ri) ht (Commit ri)) (EDocument (specDocument ri ht)) = None"
    and "putMultiErr c [] [] = None"
    and "commitErr c ds [(specDocKey (Addr ri) ht (Commit ri), EDocument (specDocument ri ht))] = None"
  shows "StoreStore c ds ri ht [] tns =
           Inr (None, ds(specDocKey (Addr ri) ht (Commit ri) \<mapsto> EDocument (specDocument ri ht)))"
proof -
  have f: "\<And>layer. layer \<in> set tns \<Longrightarrow> filter (\<lambda>n. FilesContained n \<noteq> 0) layer = []"
    using assms(2) by (auto simp: filter_empty_conv)
  then have lo: "\<And>layer. layer \<in> set tns \<Longrightarrow>
      layerOp (specDocKey (Addr ri) ht (Commit ri)) ht layer = OpPutMulti [] []"
    by (simp add: layerOp_def)
  have ops: "\<forall>op\<in>set (specStoreOps ri ht [] tns). opErr c op = None"
    using assms(3,4) lo by (auto simp: specStoreOps_def specOps_def specResults_def)
  have "concat (map (\<lambda>layer. map (\<lambda>n. (specTreeKey (specDocKey (Addr ri) ht (Commit ri)) ht n, ETreeNode n))
                            (filter (\<lambda>n. FilesContained n \<noteq> 0) layer)) tns) = []"
    using f by simp
  then have recs: "specStoreRecords ri ht [] tns =
      [(specDocKey (Addr ri) ht (Commit ri), EDocument (specDocument ri ht))]"
    by (simp add: specStoreRecords_def specRecords_def specResults_def)
  have "find (\<lambda>op. opErr c op \<noteq> None) (specStoreOps ri ht [] tns) = None"
    using ops by (simp add: find_None_iff)
  then show ?thesis
    using assms(1,5) by (simp add: StoreStore_eq recs applyMutations_def)
qed

theorem Store_empty_repository_witness:
  "StoreStore okClient Map.empty exRepo ''md5'' [] [[exNodeB]] = Inr (None, exStore0)"
  using Store_empty_repository[of "[[exNodeB]]" okClient exRepo "''md5''" Map.empty]
  by (simp add: ex_defs spec_defs eval_defs)

text \<open>
  Claim C4 as stated fails: with no bucket results and no tree layers the call panics at
  \<^verbatim>\<open>treeNodes[0]\<close>.
\<close>

theorem Store_empty_repository_counterexample:
  "StoreStore okClient Map.empty exRepo ''md5'' [] [] = Inl IndexOutOfRange"
  by (simp add: StoreStore_def)

text \<open>
  Claim C5, as amended. After two successful calls of \<open>Store\<close> for the same address, hash
  type and commit, the document key holds the document of the second call, every key of a
  record of the second call holds a record of the second call, and every other key is as
  the first call left it: \<open>Store\<close> writes and never deletes. When the second call has the
  arguments of the first, it leaves the store as the first call left it.
\<close>

theorem Store_twice:
  assumes first: "StoreStore c1 ds ri1 ht brs1 tns1 = Inr (None, ds1)"
    and second: "StoreStore c2 ds1 ri2 ht brs2 tns2 = Inr (None, ds2)"
    and same: "Addr ri2 = Addr ri1" "Commit ri2 = Commit ri1"
  shows "ds2 (specDocKey (Addr ri1) ht (Commit ri1)) = Some (EDocument (specDocument ri2 ht)) \<and>
         (\<forall>k\<in>fst ` set (specStoreRecords ri2 ht brs2 tns2).
             \<exists>e. (k, e) \<in> set (specStoreRecords ri2 ht brs2 tns2) \<and> ds2 k = Some e) \<and>
         (\<forall>k. k \<notin> fst ` set (specStoreRecords ri2 ht brs2 tns2) \<longrightarrow> ds2 k = ds1 k) \<and>
         (ri2 = ri1 \<and> brs2 = brs1 \<and> tns2 = tns1 \<longrightarrow> ds2 = ds1)"
proof -
  let ?dk = "specDocKey (Addr ri1) ht (Commit ri1)"
  let ?recs = "specStoreRecords ri2 ht brs2 tns2"
  have e1: "ds1 = applyMutations ds (specStoreRecords ri1 ht brs1 tns1)"
    using first by (rule StoreStore_success)
  have e2: "ds2 = applyMutations ds1 ?recs"
    using second by (rule StoreStore_success)
  have "?dk \<in> fst ` set ?recs"
    by (simp add: specStoreRecords_def specRecords_def same)
  from applyMutations_written[OF this, of ds1] obtain e where
    e: "(?dk, e) \<in> set ?recs" "ds2 ?dk = Some e"
    unfolding e2 by blast
  from e(1) have "(?dk, e) \<in> set (specRecords ?dk ht (specDocument ri2 ht) (specResults brs2 (hd tns2)) tns2)"
    by (simp add: specStoreRecords_def same)
  from specRecords_cases[OF this] have "e = EDocument (specDocument ri2 ht)"
    using specTreeKey_kind(1)[of ?dk ht _ "Addr ri1" ht "Commit ri1"]
      specTreeKey_kind(3)[of ?dk ht _ "Addr ri1" ht "Commit ri1"]
    by metis
  with e(2) have a: "ds2 ?dk = Some (EDocument (specDocument ri2 ht))" by simp
  have b: "\<forall>k\<in>fst ` set ?recs. \<exists>e. (k, e) \<in> set ?recs \<and> ds2 k = Some e"
    unfolding e2 using applyMutations_written by blast
  have c: "\<forall>k. k \<notin> fst ` set ?recs \<longrightarrow> ds2 k = ds1 k"
    unfolding e2 using applyMutations_other by blast
  have d: "ri2 = ri1 \<and> brs2 = brs1 \<and> tns2 = tns1 \<longrightarrow> ds2 = ds1"
    using e1 e2 by (auto simp: applyMutations_twice)
  from a b c d show ?thesis by blast
qed

theorem Store_twice_witness:
  "StoreStore okClient Map.empty exRepo ''md5'' [] [[exNodeA]] = Inr (None, exStore1) \<and>
   StoreStore okClient exStore1 exRepo ''md5'' [] [[exNodeC]] = Inr (None, exStore2) \<and>
   exStore2 exDocKey = Some (EDocument exDoc) \<and> exStore2 exKeyA = exStore1 exKeyA"
  using Store_twice[OF exStore1_run exStore2_run] exStore1_run exStore2_run
  by (simp add: ex_defs spec_defs eval_defs)

text \<open>
  Claim C5 as stated fails: after a call with the tree node \<open>exNodeA\<close> and a second call
  for the same repository with the tree node \<open>exNodeC\<close> instead, the record of \<open>exNodeA\<close>
  is still in the store.
\<close>

theorem Store_twice_counterexample:
  "StoreStore okClient Map.empty exRepo ''md5'' [] [[exNodeA]] = Inr (None, exStore1) \<and>
   StoreStore okClient exStore1 exRepo ''md5'' [] [[exNodeC]] = Inr (None, exStore2) \<and>
   exStore2 exKeyA = Some (ETreeNode exNodeA) \<and> exNodeA \<notin> set (concat [[exNodeC]])"
  by (simp add: ex_defs eval_defs)

text \<open>
  Claim C6. \<open>Store\<close> names the document by the commit's bytes in hexadecimal; \<open>Exists\<close>
  passes the \<^verbatim>\<open>plumbing.Hash\<close> itself to \<^verbatim>\<open>%x\<close>, which formats the text of its \<^verbatim>\<open>String\<close>
  method, and so looks up another key. On the example repository a successful \<open>Store\<close> into
  the empty store leaves the document under \<open>exDocKey\<close>, and \<open>Exists\<close> for the same
  address, hash type and commit, with an empty cache and a client that does not fail,
  returns false and no error.
\<close>

theorem Exists_after_Store:
  "StoreStore okClient Map.empty exRepo ''md5'' [] [[]] = Inr (None, exStore0) \<and>
   exStore0 exDocKey = Some (EDocument exDoc) \<and>
   Exists okClient \<lparr>cache = Map.empty\<rparr> exStore0 (Addr exRepo) ''md5'' (Commit exRepo) =
     (\<lparr>cache = Map.empty\<rparr>, False, None)"
  by (simp add: Exists_def dsGet_def ex_defs eval_defs)






text \<open>
  Claim C9. \<open>Store\<close> panics with an index out of range exactly when \<open>treeNodes\<close> is
  empty or its first layer has fewer nodes than \<open>bucketResults\<close> has groups, and \<open>newDoc\<close>
  panics exactly when the base layer has fewer nodes than \<open>bucketResults\<close> has groups.
\<close>

theorem Store_panics:
  "(StoreStore c ds ri ht brs tns = Inl IndexOutOfRange) = (tns = [] \<or> length (hd tns) < length brs) \<and>
   (newDoc ri ht brs base = Inl IndexOutOfRange) = (length base < length brs)"
  by (auto simp: StoreStore_eq newDoc_eq)

theorem Store_panics_witness:
  "StoreStore okClient Map.empty exRepo ''md5'' [[exFile]] [] = Inl IndexOutOfRange \<and>
   StoreStore okClient Map.empty exRepo ''md5'' [[exFile], []] [[exNodeA]] = Inl IndexOutOfRange \<and>
   newDoc exRepo ''md5'' [[exFile], []] [exNodeA] = Inl IndexOutOfRange"
  using Store_panics[of okClient Map.empty exRepo "''md5''" "[[exFile]]" "[]" "[exNodeA]"]
    Store_panics[of okClient Map.empty exRepo "''md5''" "[[exFile], []]" "[[exNodeA]]" "[exNodeA]"]
  by simp

text \<open>
  Claim C10. When \<open>newDoc\<close> returns, it returns one result for every group of
  \<open>bucketResults\<close>, the \<open>i\<close>-th built by \<open>newResult\<close> from the \<open>i\<close>-th group and the
  hash of the \<open>i\<close>-th node of the base layer; an empty group gives a result with that
  hash and no paths and no hashes. It returns whenever the base layer has at least as
  many nodes as \<open>bucketResults\<close> has groups. After a successful \<open>Store\<close> the store holds,
  for every group, a bucket-result record under the key named by the hash of the node of
  that index in the first layer.
\<close>

theorem newDoc_results:
  "(newDoc ri ht brs base = Inr (doc, rs) \<longrightarrow>
      length rs = length brs \<and>
      (\<forall>i<length brs.
         rs ! i = newResult (brs ! i) (NodeHash (base ! i)) \<and>
         bucket_hash (rs ! i) = NodeHash (base ! i) \<and>
         (brs ! i = [] \<longrightarrow>
            rs ! i = \<lparr>bucket_hash = NodeHash (base ! i), bucket_results_path = [],
                      bucket_results_hash = []\<rparr>))) \<and>
   (brs \<noteq> [] \<and> length brs \<le> length base \<longrightarrow> (\<exists>d rs'. newDoc ri ht brs base = Inr (d, rs'))) \<and>
   (StoreStore c ds ri ht brs tns = Inr (None, ds') \<longrightarrow>
      (\<forall>i<length brs.
         \<exists>r. ds' (NameKey ''RepoIndexBucket'' (hexBytes (NodeHash (hd tns ! i)) @ ''-'' @ ht)
                    (Some (specDocKey (Addr ri) ht (Commit ri)))) = Some (EResult r)))"
proof (intro conjI)
  show "newDoc ri ht brs base = Inr (doc, rs) \<longrightarrow>
      length rs = length brs \<and>
      (\<forall>i<length brs.
         rs ! i = newResult (brs ! i) (NodeHash (base ! i)) \<and>
         bucket_hash (rs ! i) = NodeHash (base ! i) \<and>
         (brs ! i = [] \<longrightarrow>
            rs ! i = \<lparr>bucket_hash = NodeHash (base ! i), bucket_results_path = [],
                      bucket_results_hash = []\<rparr>))"
    by (auto simp: newDoc_eq specResults_def newResult_eq split: if_splits)
  show "brs \<noteq> [] \<and> length brs \<le> length base \<longrightarrow> (\<exists>d rs'. newDoc ri ht brs base = Inr (d, rs'))"
    by (simp add: newDoc_eq)
  show "StoreStore c ds ri ht brs tns = Inr (None, ds') \<longrightarrow>
      (\<forall>i<length brs.
         \<exists>r. ds' (NameKey ''RepoIndexBucket'' (hexBytes (NodeHash (hd tns ! i)) @ ''-'' @ ht)
                    (Some (specDocKey (Addr ri) ht (Commit ri)))) = Some (EResult r))"
    using Store_persists_results by blast
qed

theorem newDoc_results_witness:
  "(\<exists>d rs. newDoc exRepo ''md5'' [[exFile], []] [exNodeA, exNodeB] = Inr (d, rs) \<and> length rs = 2 \<and>
     rs ! 1 = \<lparr>bucket_hash = NodeHash exNodeB, bucket_results_path = [], bucket_results_hash = []\<rparr>) \<and>
   StoreStore okClient Map.empty exRepo ''md5'' [[exFile], []] [[exNodeA, exNodeB]] = Inr (None, exStore4) \<and>
   (\<exists>r. exStore4 exKeyR2 = Some (EResult r))"
proof (intro conjI)
  have "\<exists>d rs. newDoc exRepo ''md5'' [[exFile], []] [exNodeA, exNodeB] = Inr (d, rs)"
    using newDoc_results[where ri = exRepo and ht = "''md5''" and brs = "[[exFile], []]"
        and base = "[exNodeA, exNodeB]", THEN conjunct2, THEN conjunct1]
    by simp
  then obtain d rs where e: "newDoc exRepo ''md5'' [[exFile], []] [exNodeA, exNodeB] = Inr (d, rs)"
    by blast
  from newDoc_results[where ri = exRepo and ht = "''md5''" and brs = "[[exFile], []]"
        and base = "[exNodeA, exNodeB]" and doc = d and rs = rs, THEN conjunct1] e
  have "length rs = 2 \<and>
     rs ! 1 = \<lparr>bucket_hash = NodeHash exNodeB, bucket_results_path = [], bucket_results_hash = []\<rparr>"
    by (simp add: newResult_def)
  with e show "\<exists>d rs. newDoc exRepo ''md5'' [[exFile], []] [exNodeA, exNodeB] = Inr (d, rs) \<and> length rs = 2 \<and>
     rs ! 1 = \<lparr>bucket_hash = NodeHash exNodeB, bucket_results_path = [], bucket_results_hash = []\<rparr>"
    by blast
  show run: "StoreStore okClient Map.empty exRepo ''md5'' [[exFile], []] [[exNodeA, exNodeB]] = Inr (None, exStore4)"
    by (rule exStore4_run)
  from newDoc_results[where c = okClient and ds = Map.empty and ri = exRepo and ht = "''md5''"
        and brs = "[[exFile], []]" and tns = "[[exNodeA, exNodeB]]" and ds' = exStore4,
        THEN conjunct2, THEN conjunct2] run
  have "\<forall>i<length [[exFile], []].
      \<exists>r. exStore4 (NameKey ''RepoIndexBucket'' (hexBytes (NodeHash (hd [[exNodeA, exNodeB]] ! i)) @ ''-'' @ ''md5'')
                    (Some (specDocKey (Addr exRepo) ''md5'' (Commit exRepo)))) = Some (EResult r)"
    by blast
  from this[rule_format, of 1]
  have "\<exists>r. exStore4 (NameKey ''RepoIndexBucket'' (hexBytes (NodeHash (hd [[exNodeA, exNodeB]] ! 1)) @ ''-'' @ ''md5'')
                    (Some (specDocKey (Addr exRepo) ''md5'' (Commit exRepo)))) = Some (EResult r)"
    by simp
  then show "\<exists>r. exStore4 exKeyR2 = Some (EResult r)"
    by (simp add: ex_defs spec_defs eval_defs)
qed

end
